theory Spec2Isabelle
  imports Main
begin

section \<open>Values shared by the two source files\<close>

text \<open>
  A thrown value or promise rejection. \<open>RangeError\<close> and \<open>TypeError\<close> are the
  built-in errors the modelled code can raise itself; \<open>Failure n\<close> stands for any
  other thrown value (a stream error, an error thrown by a selector), told apart by
  its number.
\<close>

datatype err = RangeError | TypeError | Failure nat

text \<open>
  What a settled \<open>next()\<close>, \<open>return()\<close> promise of an async iterator carries:
  \<open>{done: false, value}\<close>, \<open>{done: true}\<close>, or a rejection.
\<close>

datatype 'a step = Yield 'a | Done | Throw err

text \<open>
  The states of a generator object between two requests. Every sequence of
  \<open>asynciterablex.ts\<close>, \<open>tap.ts\<close> and \<open>fromdomstream.ts\<close> creates its
  iterator with an \<open>async *[Symbol.asyncIterator]()\<close> method or an
  \<open>async function*\<close>, so every iterator of the library is such an object.
\<close>

datatype gen_state = SuspendedStart | SuspendedYield | Completed

record 'l generator =
  g_state :: gen_state
  g_locals :: 'l

text \<open>
  \<open>generator_next body v g w\<close> is \<open>g.next(v)\<close> on an async generator object whose
  function body is \<open>body\<close>: a completed generator answers \<open>{done: true}\<close> without
  running any code; otherwise the body runs from where it was suspended (\<open>body\<close> is
  told whether that is the start or a \<open>yield\<close>) to its next \<open>yield\<close>, to its end, or
  to an uncaught exception. \<open>'w\<close> is the state outside of the generator that the body
  reads and changes. \<open>None\<close> means that the promise never settles.
\<close>

definition generator_next ::
  "('v \<Rightarrow> gen_state \<Rightarrow> 'l \<Rightarrow> 'w \<Rightarrow> ('a step \<times> 'l \<times> 'w) option) \<Rightarrow>
   'v \<Rightarrow> 'l generator \<Rightarrow> 'w \<Rightarrow> ('a step \<times> 'l generator \<times> 'w) option" where
  "generator_next body v g w =
     (case g_state g of
        Completed \<Rightarrow> Some (Done, g, w)
      | st \<Rightarrow>
         (case body v st (g_locals g) w of
            None \<Rightarrow> None
          | Some (r, l', w') \<Rightarrow>
              Some (r,
                    \<lparr>g_state = (case r of Yield x \<Rightarrow> SuspendedYield | _ \<Rightarrow> Completed),
                     g_locals = l'\<rparr>,
                    w')))"

text \<open>
  \<open>g.return()\<close> on a generator none of whose \<open>yield\<close>s stands inside a
  \<open>try\<close>: the generator completes and no code of the body runs.
\<close>

definition generator_return :: "'l generator \<Rightarrow> 'w \<Rightarrow> ('a step \<times> 'l generator \<times> 'w) option" where
  "generator_return g w = Some (Done, g\<lparr>g_state := Completed\<rparr>, w)"

text \<open>
  A consumer that calls \<open>next\<close> once per element of \<open>vs\<close>, passing that element,
  each call after the one before has settled: the answers it gets.
\<close>

fun generator_run ::
  "('v \<Rightarrow> gen_state \<Rightarrow> 'l \<Rightarrow> 'w \<Rightarrow> ('a step \<times> 'l \<times> 'w) option) \<Rightarrow>
   'v list \<Rightarrow> 'l generator \<Rightarrow> 'w \<Rightarrow> ('a step list \<times> 'l generator \<times> 'w) option" where
  "generator_run body [] g w = Some ([], g, w)"
| "generator_run body (v # vs) g w =
     (case generator_next body v g w of
        None \<Rightarrow> None
      | Some (r, g', w') \<Rightarrow>
          (case generator_run body vs g' w' of
             None \<Rightarrow> None
           | Some (rs, g'', w'') \<Rightarrow> Some (r # rs, g'', w'')))"

section \<open>fromdomstream.ts\<close>

subsection \<open>Buffers and views\<close>

text \<open>
  An \<open>ArrayBuffer\<close> is its bytes; a \<open>Uint8Array\<close> is a window on a buffer.
  \<open>new Uint8Array(buffer, byteOffset, length)\<close> raises \<open>RangeError\<close> when the
  window does not fit the buffer.
\<close>

type_synonym arraybuffer = "nat list"

record uint8array =
  buffer :: arraybuffer
  byteOffset :: nat
  byteLength :: nat

definition new_ArrayBuffer :: "nat \<Rightarrow> arraybuffer" where
  "new_ArrayBuffer n = replicate n 0"

definition new_Uint8Array :: "arraybuffer \<Rightarrow> nat \<Rightarrow> nat \<Rightarrow> err + uint8array" where
  "new_Uint8Array b off len =
     (if off + len \<le> length b
      then Inr \<lparr>buffer = b, byteOffset = off, byteLength = len\<rparr>
      else Inl RangeError)"

subsection \<open>The stream and its reader\<close>

text \<open>
  \<open>ReadableStreamReadResult<T>\<close>, as the source uses it: it reads \<open>done\<close> and
  \<open>value\<close> of every result, and of the result of a buffer-reuse read also
  \<open>value.byteLength\<close> and \<open>value.buffer\<close>, whether the stream is done or not. So
  every result has a value of the type \<open>T\<close>.
\<close>

record 'a read_result =
  rr_done :: bool
  rr_value :: 'a

text \<open>
  The reader is part of the platform, not of the repository: it is a parameter of the
  model. \<open>'s\<close> is the state of the underlying source; every operation may change it,
  and may fail (\<open>Inl\<close>, \<open>Some\<close>). \<open>read\<close> is \<open>ReadableStreamDefaultReader.read()\<close>
  and \<open>read_view\<close> is \<open>ReadableStreamBYOBReader.read(view)\<close>.
\<close>

type_synonym 's byob_read = "'s \<Rightarrow> uint8array \<Rightarrow> (err + uint8array read_result) \<times> 's"

record ('s, 'a) reader =
  read :: "'s \<Rightarrow> (err + 'a read_result) \<times> 's"
  read_view :: "'s byob_read"
  cancel :: "err option \<Rightarrow> 's \<Rightarrow> err option \<times> 's"
  releaseLock :: "'s \<Rightarrow> err option \<times> 's"

record ('s, 'a) readable_stream =
  getReader :: "'s \<Rightarrow> (err + ('s, 'a) reader) \<times> 's"
  getReader_byob :: "'s \<Rightarrow> (err + ('s, 'a) reader) \<times> 's"

text \<open>
  What the adapter can observe of the stream: the state of its source, the
  \<open>stream.locked\<close> flag, and a record of the release actions performed so far (the
  reasons passed to \<open>reader.cancel\<close>, oldest first, and the number of
  \<open>reader.releaseLock()\<close> calls). Acquiring a reader locks the stream, a
  \<open>releaseLock()\<close> that does not throw unlocks it, \<open>cancel\<close> leaves the lock alone.
\<close>

record 's world =
  underlying :: 's
  locked :: bool
  cancels :: "err option list"
  releases :: nat

definition stream_getReader ::
  "('s, 'a) readable_stream \<Rightarrow> 's world \<Rightarrow> (err + ('s, 'a) reader) \<times> 's world" where
  "stream_getReader S w =
     (case getReader S (underlying w) of
        (Inl e, s') \<Rightarrow> (Inl e, w\<lparr>underlying := s'\<rparr>)
      | (Inr R, s') \<Rightarrow> (Inr R, w\<lparr>underlying := s', locked := True\<rparr>))"

definition stream_getReader_byob ::
  "('s, 'a) readable_stream \<Rightarrow> 's world \<Rightarrow> (err + ('s, 'a) reader) \<times> 's world" where
  "stream_getReader_byob S w =
     (case getReader_byob S (underlying w) of
        (Inl e, s') \<Rightarrow> (Inl e, w\<lparr>underlying := s'\<rparr>)
      | (Inr R, s') \<Rightarrow> (Inr R, w\<lparr>underlying := s', locked := True\<rparr>))"

definition reader_cancel :: "('s, 'a) reader \<Rightarrow> err option \<Rightarrow> 's world \<Rightarrow> err option \<times> 's world" where
  "reader_cancel R reason w =
     (case cancel R reason (underlying w) of
        (outcome, s') \<Rightarrow> (outcome, w\<lparr>underlying := s', cancels := cancels w @ [reason]\<rparr>))"

definition reader_releaseLock :: "('s, 'a) reader \<Rightarrow> 's world \<Rightarrow> err option \<times> 's world" where
  "reader_releaseLock R w =
     (case releaseLock R (underlying w) of
        (None, s') \<Rightarrow> (None, w\<lparr>underlying := s', locked := False, releases := Suc (releases w)\<rparr>)
      | (Some e, s') \<Rightarrow> (Some e, w\<lparr>underlying := s', releases := Suc (releases w)\<rparr>))"

subsection \<open>readInto and readNext\<close>

text \<open>
  \<open>readInto\<close> calls itself until the buffer is full or the stream is done; nothing in
  the source bounds the number of calls, so the model is a partial function and
  \<open>None\<close> is a promise that never settles.
\<close>

partial_function (option) readInto ::
  "'s byob_read \<Rightarrow> 's \<Rightarrow> arraybuffer \<Rightarrow> nat \<Rightarrow> nat \<Rightarrow> ((err + uint8array read_result) \<times> 's) option"
where
  "readInto rd s buf offset sz =
     (if offset \<ge> sz then
        (case new_Uint8Array buf 0 sz of
           Inl e \<Rightarrow> Some (Inl e, s)
         | Inr v \<Rightarrow> Some (Inr \<lparr>rr_done = False, rr_value = v\<rparr>, s))
      else
        (case new_Uint8Array buf offset (sz - offset) of
           Inl e \<Rightarrow> Some (Inl e, s)
         | Inr view \<Rightarrow>
            (case rd s view of
               (Inl e, s') \<Rightarrow> Some (Inl e, s')
             | (Inr r, s') \<Rightarrow>
                (let offset' = offset + byteLength (rr_value r) in
                 if offset' < sz \<and> \<not> rr_done r
                 then readInto rd s' (buffer (rr_value r)) offset' sz
                 else (case new_Uint8Array (buffer (rr_value r)) 0 offset' of
                         Inl e \<Rightarrow> Some (Inl e, s')
                       | Inr v \<Rightarrow> Some (Inr \<lparr>rr_done = rr_done r, rr_value = v\<rparr>, s'))))))"

declare readInto.simps [code]

text \<open>
  The value a consumer sends with \<open>next\<close>: a byte count (a non-negative integer), an
  \<open>ArrayBuffer\<close>, a \<open>SharedArrayBuffer\<close>, or anything else (\<open>undefined\<close> when
  \<open>next()\<close> is called without an argument).
\<close>

datatype bufferOrLen = Len nat | Buf arraybuffer | SharedBuf arraybuffer | OtherValue

text \<open>
  The result of \<open>readNext\<close> carries \<open>value: undefined\<close> in its last branch, so its
  value is optional.
\<close>

definition some_value :: "uint8array read_result \<Rightarrow> uint8array option read_result" where
  "some_value r = \<lparr>rr_done = rr_done r, rr_value = Some (rr_value r)\<rparr>"

definition readNext ::
  "('s, 'a) reader \<Rightarrow> bufferOrLen \<Rightarrow> nat \<Rightarrow> 's \<Rightarrow> ((err + uint8array option read_result) \<times> 's) option" where
  "readNext reader bufferOrLen offset s =
     (case bufferOrLen of
        Len n \<Rightarrow>
          map_option (\<lambda>(r, s'). (map_sum id some_value r, s'))
            (readInto (read_view reader) s (new_ArrayBuffer n) offset n)
      | Buf b \<Rightarrow>
          map_option (\<lambda>(r, s'). (map_sum id some_value r, s'))
            (readInto (read_view reader) s b offset (length b))
      | SharedBuf b \<Rightarrow>
          map_option (\<lambda>(r, s'). (map_sum id some_value r, s'))
            (readInto (read_view reader) s b offset (length b))
      | OtherValue \<Rightarrow> Some (Inr \<lparr>rr_done = True, rr_value = None\<rparr>, s))"

subsection \<open>The two reading strategies\<close>

text \<open>
  The bodies of the two generator functions, as \<open>generator_next\<close> runs them. Neither
  has local state that survives a \<open>yield\<close> (\<open>r\<close> and \<open>value\<close> are overwritten on
  every resumption), so their locals are \<open>unit\<close>.
\<close>

definition defaultReaderToAsyncIterator ::
  "('s, 'a) reader \<Rightarrow> 'v \<Rightarrow> gen_state \<Rightarrow> unit \<Rightarrow> 's \<Rightarrow> ('a step \<times> unit \<times> 's) option" where
  "defaultReaderToAsyncIterator reader v st l s =
     (case read reader s of
        (Inl e, s') \<Rightarrow> Some (Throw e, l, s')
      | (Inr r, s') \<Rightarrow>
          if rr_done r then Some (Done, l, s') else Some (Yield (rr_value r), l, s'))"

text \<open>The placeholder \<open>null\<close> of the priming step is \<open>None\<close>.\<close>

definition byobReaderToAsyncIterator ::
  "('s, 'a) reader \<Rightarrow> bufferOrLen \<Rightarrow> gen_state \<Rightarrow> unit \<Rightarrow> 's \<Rightarrow>
   (uint8array option step \<times> unit \<times> 's) option" where
  "byobReaderToAsyncIterator reader v st l s =
     (case st of
        SuspendedStart \<Rightarrow> Some (Yield None, l, s)
      | _ \<Rightarrow>
         (case readNext reader v 0 s of
            None \<Rightarrow> None
          | Some (Inl e, s') \<Rightarrow> Some (Throw e, l, s')
          | Some (Inr r, s') \<Rightarrow>
              if rr_done r then Some (Done, l, s') else Some (Yield (rr_value r), l, s')))"

subsection \<open>The resource-release wrapper\<close>

text \<open>
  The iterator that \<open>_consumeReader\<close> delegates to with \<open>yield*\<close>: what its
  \<open>next(v)\<close> and \<open>return()\<close> do to its own state \<open>'i\<close> and to the source. It has no
  access to the lock or to the reader's \<open>cancel\<close>: both strategies above only read.
\<close>

record ('i, 's, 'v, 'a) async_iterator =
  it_next :: "'v \<Rightarrow> 'i \<Rightarrow> 's \<Rightarrow> ('a step \<times> 'i \<times> 's) option"
  it_return :: "'i \<Rightarrow> 's \<Rightarrow> ('a step \<times> 'i \<times> 's) option"

text \<open>
  The \<open>catch\<close> block: \<open>threw = true\<close>, and the reader, when there is one, is
  cancelled with the caught value. The result is the rejection of that \<open>cancel\<close>, if
  any: it leaves the \<open>catch\<close> block as an exception.
\<close>

definition consumeReader_catch ::
  "('s, 'a) reader option \<Rightarrow> err \<Rightarrow> 's world \<Rightarrow> err option \<times> 's world" where
  "consumeReader_catch reader e w =
     (case reader of
        None \<Rightarrow> (None, w)
      | Some R \<Rightarrow> reader_cancel R (Some e) w)"

text \<open>
  The \<open>finally\<close> block. \<open>pending\<close> is the completion the block was entered with
  (\<open>Done\<close> for the end of the \<open>try\<close> or a \<open>return\<close>, \<open>Throw\<close> for an exception
  leaving the \<open>catch\<close> block); the block replaces it by \<open>Done\<close> when it returns early
  and by the rejection of \<open>cancel\<close> when that is awaited and fails. Reading
  \<open>reader.closed\<close> and attaching a handler to it changes nothing that the model
  observes; whatever \<open>releaseLock\<close> throws is caught.
\<close>

definition consumeReader_finally ::
  "('s, 'a) reader option \<Rightarrow> bool \<Rightarrow> 'b step \<Rightarrow> 's world \<Rightarrow> 'b step \<times> 's world" where
  "consumeReader_finally reader threw pending w =
     (case reader of
        None \<Rightarrow> (Done, w)
      | Some R \<Rightarrow>
         (case (if \<not> threw then reader_cancel R None w else (None, w)) of
            (Some e, w1) \<Rightarrow> (Throw e, w1)
          | (None, w1) \<Rightarrow>
              (pending, if locked w1 then snd (reader_releaseLock R w1) else w1)))"

text \<open>
  What the wrapper does with an answer of the delegated iterator: a value is passed on
  and the generator stays suspended in \<open>yield*\<close>; the end of the delegated iterator
  ends the \<open>try\<close> block; its failure enters the \<open>catch\<close> block.
\<close>

definition consumeReader_settle ::
  "('s, 'a) reader option \<Rightarrow> 'b step \<Rightarrow> 's world \<Rightarrow> 'b step \<times> 's world" where
  "consumeReader_settle reader r w =
     (case r of
        Yield x \<Rightarrow> (Yield x, w)
      | Done \<Rightarrow> consumeReader_finally reader False Done w
      | Throw e \<Rightarrow>
          (case consumeReader_catch reader e w of
             (None, w1) \<Rightarrow> consumeReader_finally reader True Done w1
           | (Some e', w1) \<Rightarrow> consumeReader_finally reader True (Throw e') w1))"

text \<open>
  The body of \<open>_consumeReader\<close> for \<open>generator_next\<close>; its only local state across
  a \<open>yield\<close> is the delegated iterator. The \<open>stream\<close> argument of the source is the
  \<open>locked\<close> flag of the world.
\<close>

definition consumeReader ::
  "('s, 'a) reader option \<Rightarrow> ('i, 's, 'v, 'b) async_iterator \<Rightarrow>
   'v \<Rightarrow> gen_state \<Rightarrow> 'i \<Rightarrow> 's world \<Rightarrow> ('b step \<times> 'i \<times> 's world) option" where
  "consumeReader reader iterator v st i w =
     (case it_next iterator v i (underlying w) of
        None \<Rightarrow> None
      | Some (r, i', s') \<Rightarrow>
          (case consumeReader_settle reader r (w\<lparr>underlying := s'\<rparr>) of
             (r', w') \<Rightarrow> Some (r', i', w')))"

text \<open>
  \<open>return()\<close> on the generator of \<open>_consumeReader\<close>. Before the first \<open>next\<close> the
  generator completes without entering the \<open>try\<close> statement. Suspended in
  \<open>yield*\<close>, it forwards the request to the delegated iterator and treats the answer
  as above.
\<close>

definition consumeReader_return ::
  "('s, 'a) reader option \<Rightarrow> ('i, 's, 'v, 'b) async_iterator \<Rightarrow>
   'i generator \<Rightarrow> 's world \<Rightarrow> ('b step \<times> 'i generator \<times> 's world) option" where
  "consumeReader_return reader iterator g w =
     (case g_state g of
        SuspendedStart \<Rightarrow> Some (Done, g\<lparr>g_state := Completed\<rparr>, w)
      | Completed \<Rightarrow> Some (Done, g, w)
      | SuspendedYield \<Rightarrow>
         (case it_return iterator (g_locals g) (underlying w) of
            None \<Rightarrow> None
          | Some (r, i', s') \<Rightarrow>
              (case consumeReader_settle reader r (w\<lparr>underlying := s'\<rparr>) of
                 (r', w') \<Rightarrow>
                   Some (r',
                         \<lparr>g_state = (case r' of Yield x \<Rightarrow> SuspendedYield | _ \<Rightarrow> Completed),
                          g_locals = i'\<rparr>,
                         w'))))"

text \<open>What a consumer can ask of the wrapper, and a sequence of such requests.\<close>

datatype 'v request = Next 'v | Return

definition consumeReader_request ::
  "('s, 'a) reader option \<Rightarrow> ('i, 's, 'v, 'b) async_iterator \<Rightarrow>
   'v request \<Rightarrow> 'i generator \<Rightarrow> 's world \<Rightarrow> ('b step \<times> 'i generator \<times> 's world) option" where
  "consumeReader_request reader iterator q g w =
     (case q of
        Next v \<Rightarrow> generator_next (consumeReader reader iterator) v g w
      | Return \<Rightarrow> consumeReader_return reader iterator g w)"

fun consumeReader_run ::
  "('s, 'a) reader option \<Rightarrow> ('i, 's, 'v, 'b) async_iterator \<Rightarrow>
   'v request list \<Rightarrow> 'i generator \<Rightarrow> 's world \<Rightarrow> ('b step list \<times> 'i generator \<times> 's world) option" where
  "consumeReader_run reader iterator [] g w = Some ([], g, w)"
| "consumeReader_run reader iterator (q # qs) g w =
     (case consumeReader_request reader iterator q g w of
        None \<Rightarrow> None
      | Some (r, g', w') \<Rightarrow>
          (case consumeReader_run reader iterator qs g' w' of
             None \<Rightarrow> None
           | Some (rs, g'', w'') \<Rightarrow> Some (r # rs, g'', w'')))"

subsection \<open>The two sequence classes\<close>

definition default_iterator ::
  "('s, 'a) reader \<Rightarrow> (unit generator, 's, 'v, 'a) async_iterator" where
  "default_iterator reader =
     \<lparr>it_next = generator_next (defaultReaderToAsyncIterator reader),
      it_return = generator_return\<rparr>"

definition byob_iterator ::
  "('s, 'a) reader \<Rightarrow> (unit generator, 's, bufferOrLen, uint8array option) async_iterator" where
  "byob_iterator reader =
     \<lparr>it_next = generator_next (byobReaderToAsyncIterator reader),
      it_return = generator_return\<rparr>"

text \<open>
  The iterator object that \<open>[Symbol.asyncIterator]()\<close> returns: the generator of
  \<open>_consumeReader\<close> with what it closes over, the reader and the generator of the
  reading strategy.
\<close>

datatype strategy = DefaultReader | ByobReader

record ('s, 'a) stream_iterator =
  si_reader :: "('s, 'a) reader"
  si_strategy :: strategy
  si_gen :: "unit generator generator"

definition fresh_generator :: "unit generator generator" where
  "fresh_generator =
     \<lparr>g_state = SuspendedStart, g_locals = \<lparr>g_state = SuspendedStart, g_locals = ()\<rparr>\<rparr>"

definition stream_iterator_request ::
  "bufferOrLen request \<Rightarrow> ('s, uint8array option) stream_iterator \<Rightarrow> 's world \<Rightarrow>
   (uint8array option step \<times> ('s, uint8array option) stream_iterator \<times> 's world) option" where
  "stream_iterator_request q it w =
     map_option (\<lambda>(r, g', w'). (r, it\<lparr>si_gen := g'\<rparr>, w'))
       (case si_strategy it of
          DefaultReader \<Rightarrow>
            consumeReader_request (Some (si_reader it)) (default_iterator (si_reader it)) q (si_gen it) w
        | ByobReader \<Rightarrow>
            consumeReader_request (Some (si_reader it)) (byob_iterator (si_reader it)) q (si_gen it) w)"

definition AsyncIterableReadableStream_asyncIterator ::
  "('s, 'a) readable_stream \<Rightarrow> 's world \<Rightarrow> (err + ('s, 'a) stream_iterator) \<times> 's world" where
  "AsyncIterableReadableStream_asyncIterator stream w =
     (case stream_getReader stream w of
        (Inl e, w') \<Rightarrow> (Inl e, w')
      | (Inr reader, w') \<Rightarrow>
          (Inr \<lparr>si_reader = reader, si_strategy = DefaultReader, si_gen = fresh_generator\<rparr>, w'))"

text \<open>
  The byte stream class: when \<open>getReader({mode: 'byob'})\<close> throws, the method of the
  superclass answers. Otherwise the new iterator is asked for its first item once, and
  the answer is dropped.
\<close>

definition AsyncIterableReadableByteStream_asyncIterator ::
  "('s, uint8array option) readable_stream \<Rightarrow> 's world \<Rightarrow>
   ((err + ('s, uint8array option) stream_iterator) \<times> 's world) option" where
  "AsyncIterableReadableByteStream_asyncIterator stream w =
     (case stream_getReader_byob stream w of
        (Inl e, w') \<Rightarrow> Some (AsyncIterableReadableStream_asyncIterator stream w')
      | (Inr reader, w') \<Rightarrow>
          (case stream_iterator_request (Next OtherValue)
                  \<lparr>si_reader = reader, si_strategy = ByobReader, si_gen = fresh_generator\<rparr> w' of
             None \<Rightarrow> None
           | Some (r, iterator, w'') \<Rightarrow> Some (Inr iterator, w'')))"

text \<open>
  The iterator of the byte stream class as \<open>[Symbol.asyncIterator]()\<close> hands it
  out when it got a buffer-reuse reader, and as every cycle that yields a region
  leaves it: both generators suspended at a \<open>yield\<close>. \<open>answers_no_value a\<close>: the
  request settled, and not with a value.
\<close>

definition primed_byob_iterator ::
  "('s, uint8array option) reader \<Rightarrow> ('s, uint8array option) stream_iterator" where
  "primed_byob_iterator R =
     \<lparr>si_reader = R, si_strategy = ByobReader,
      si_gen = \<lparr>g_state = SuspendedYield,
                g_locals = \<lparr>g_state = SuspendedYield, g_locals = ()\<rparr>\<rparr>\<rparr>"


text \<open>
  \<open>fromDOMStream(stream, options)\<close> picks the class; \<open>byob\<close> says whether
  \<open>options\<close> is given with \<open>mode\<close> equal to \<open>'byob'\<close>.
\<close>

datatype dom_sequence = AsyncIterableReadableStream | AsyncIterableReadableByteStream

definition fromDOMStream :: "bool \<Rightarrow> dom_sequence" where
  "fromDOMStream byob =
     (if \<not> byob then AsyncIterableReadableStream else AsyncIterableReadableByteStream)"

definition asyncIterator ::
  "dom_sequence \<Rightarrow> ('s, uint8array option) readable_stream \<Rightarrow> 's world \<Rightarrow>
   ((err + ('s, uint8array option) stream_iterator) \<times> 's world) option" where
  "asyncIterator x stream w =
     (case x of
        AsyncIterableReadableStream \<Rightarrow> Some (AsyncIterableReadableStream_asyncIterator stream w)
      | AsyncIterableReadableByteStream \<Rightarrow> AsyncIterableReadableByteStream_asyncIterator stream w)"

subsection \<open>Observing the reads of a cycle, and streams to run\<close>

text \<open>
  \<open>recording rd\<close> is the reader \<open>rd\<close> with a notebook: it answers as \<open>rd\<close>
  does and writes down each view it was asked to fill together with the answer.
\<close>

definition recording ::
  "'s byob_read \<Rightarrow> ('s \<times> (uint8array \<times> uint8array read_result) list) byob_read" where
  "recording rd = (\<lambda>(s, log) view.
      case rd s view of
        (Inl e, s') \<Rightarrow> (Inl e, (s', log))
      | (Inr r, s') \<Rightarrow> (Inr r, (s', log @ [(view, r)])))"

text \<open>The number of bytes the recorded answers delivered.\<close>

definition filled :: "(uint8array \<times> uint8array read_result) list \<Rightarrow> nat" where
  "filled log = sum_list (map (\<lambda>(view, r). byteLength (rr_value r)) log)"


text \<open>
  What the platform promises of \<open>ReadableStreamBYOBReader.read(view)\<close> for a view
  that is not empty: the answer is a view on storage of the size of the storage
  passed in (the same memory, transferred), it holds no more bytes than the view had
  room for, and at least one byte unless the stream is done.
\<close>

definition byob_contract :: "'s byob_read \<Rightarrow> bool" where
  "byob_contract rd =
     (\<forall>s view r s'. rd s view = (Inr r, s') \<longrightarrow> 0 < byteLength view \<longrightarrow>
        length (buffer (rr_value r)) = length (buffer view) \<and>
        byteLength (rr_value r) \<le> byteLength view \<and>
        (\<not> rr_done r \<longrightarrow> 0 < byteLength (rr_value r)))"

text \<open>
  Two streams of the platform, to run the adapter on. \<open>fill_bytes b off n\<close> is the
  storage \<open>b\<close> after the stream wrote \<open>n\<close> bytes (of value 1) from \<open>off\<close> on.
  \<open>chunks_of k\<close> never ends and delivers at most \<open>k\<close> bytes per read.
  \<open>bytes_then_end k\<close> has as its state the number of bytes still to come, delivers
  at most \<open>k\<close> of them per read, and signals the end with an empty view once none
  is left.
\<close>

primrec fill_bytes :: "arraybuffer \<Rightarrow> nat \<Rightarrow> nat \<Rightarrow> arraybuffer" where
  "fill_bytes b off 0 = b"
| "fill_bytes b off (Suc n) = (fill_bytes b off n)[off + n := 1]"

definition chunks_of :: "nat \<Rightarrow> unit byob_read" where
  "chunks_of k s view =
     (let n = min k (byteLength view) in
      (Inr \<lparr>rr_done = False,
            rr_value = \<lparr>buffer = fill_bytes (buffer view) (byteOffset view) n,
                        byteOffset = byteOffset view, byteLength = n\<rparr>\<rparr>, s))"

definition bytes_then_end :: "nat \<Rightarrow> nat byob_read" where
  "bytes_then_end k s view =
     (let n = min k (min s (byteLength view)) in
      (Inr \<lparr>rr_done = (s = 0),
            rr_value = \<lparr>buffer = fill_bytes (buffer view) (byteOffset view) n,
                        byteOffset = byteOffset view, byteLength = n\<rparr>\<rparr>, s - n))"

subsection \<open>What the release wrapper leaves behind\<close>

text \<open>
  \<open>untouched w w'\<close>: between the two worlds no release action happened.
  \<open>dependable R\<close>: the reader's \<open>cancel()\<close> without a reason never rejects and its
  \<open>releaseLock()\<close> never throws. \<open>released_once R w w'\<close>: between the two worlds
  \<open>cancel\<close> was called exactly once and \<open>releaseLock\<close> at most once; if the reader
  is dependable, the lock was released when the stream was locked, and the stream is
  unlocked.
\<close>

definition untouched :: "'s world \<Rightarrow> 's world \<Rightarrow> bool" where
  "untouched w w' =
     (cancels w' = cancels w \<and> releases w' = releases w \<and> locked w' = locked w)"

definition dependable :: "('s, 'a) reader \<Rightarrow> bool" where
  "dependable R =
     ((\<forall>s. fst (cancel R None s) = None) \<and> (\<forall>s. fst (releaseLock R s) = None))"

definition released_once :: "('s, 'a) reader \<Rightarrow> 's world \<Rightarrow> 's world \<Rightarrow> bool" where
  "released_once R w w' =
     ((\<exists>reason. cancels w' = cancels w @ [reason]) \<and>
      releases w' \<le> Suc (releases w) \<and>
      (dependable R \<longrightarrow>
         \<not> locked w' \<and> releases w' = (if locked w then Suc (releases w) else releases w)))"

subsection \<open>A stream to run the adapters on\<close>

text \<open>
  The state of \<open>example_reader\<close> is the number of bytes the source still has.
  \<open>read()\<close> delivers them in fresh chunks of at most four bytes and \<open>read(view)\<close>
  writes at most four bytes into the view; both signal the end once no byte is left.
  The three arguments make the reads, \<open>cancel\<close> and \<open>releaseLock\<close> fail with the
  given error. \<open>example_stream R byob\<close> hands out the reader \<open>R\<close>; it refuses a
  buffer-reuse reader with a \<open>TypeError\<close> unless \<open>byob\<close> holds.
\<close>

definition example_reader ::
  "err option \<Rightarrow> err option \<Rightarrow> err option \<Rightarrow> (nat, uint8array option) reader" where
  "example_reader read_failure cancel_failure release_failure =
     \<lparr>read = (\<lambda>s.
        case read_failure of
          Some e \<Rightarrow> (Inl e, s)
        | None \<Rightarrow>
            if s = 0 then (Inr \<lparr>rr_done = True, rr_value = None\<rparr>, s)
            else (Inr \<lparr>rr_done = False,
                       rr_value = Some \<lparr>buffer = replicate (min 4 s) 1, byteOffset = 0,
                                        byteLength = min 4 s\<rparr>\<rparr>, s - min 4 s)),
      read_view = (\<lambda>s view.
        case read_failure of
          Some e \<Rightarrow> (Inl e, s)
        | None \<Rightarrow> bytes_then_end 4 s view),
      cancel = (\<lambda>reason s. (cancel_failure, 0)),
      releaseLock = (\<lambda>s. (release_failure, s))\<rparr>"

definition example_stream ::
  "('s, 'a) reader \<Rightarrow> bool \<Rightarrow> ('s, 'a) readable_stream" where
  "example_stream R byob =
     \<lparr>getReader = (\<lambda>s. (Inr R, s)),
      getReader_byob = (\<lambda>s. if byob then (Inr R, s) else (Inl TypeError, s))\<rparr>"

definition unlocked_stream :: "'s \<Rightarrow> 's world" where
  "unlocked_stream s = \<lparr>underlying = s, locked = False, cancels = [], releases = 0\<rparr>"

text \<open>
  A consumer of a stream-backed sequence: it obtains the iterator and sends it the
  requests \<open>qs\<close>, one after the other. The result is the answers and the world the
  consumer leaves behind.
\<close>

fun stream_iterator_run ::
  "bufferOrLen request list \<Rightarrow> ('s, uint8array option) stream_iterator \<Rightarrow> 's world \<Rightarrow>
   (uint8array option step list \<times> ('s, uint8array option) stream_iterator \<times> 's world) option" where
  "stream_iterator_run [] it w = Some ([], it, w)"
| "stream_iterator_run (q # qs) it w =
     (case stream_iterator_request q it w of
        None \<Rightarrow> None
      | Some (r, it', w') \<Rightarrow>
          (case stream_iterator_run qs it' w' of
             None \<Rightarrow> None
           | Some (rs, it'', w'') \<Rightarrow> Some (r # rs, it'', w'')))"

definition iterate ::
  "dom_sequence \<Rightarrow> ('s, uint8array option) readable_stream \<Rightarrow> bufferOrLen request list \<Rightarrow>
   's world \<Rightarrow> ((err + uint8array option step list) \<times> 's world) option" where
  "iterate x stream qs w =
     (case asyncIterator x stream w of
        None \<Rightarrow> None
      | Some (Inl e, w') \<Rightarrow> Some (Inl e, w')
      | Some (Inr it, w') \<Rightarrow>
          (case stream_iterator_run qs it w' of
             None \<Rightarrow> None
           | Some (rs, it', w'') \<Rightarrow> Some (Inr rs, w'')))"

section \<open>asynciterablex.ts\<close>

subsection \<open>The values a sequence is made from\<close>

text \<open>
  A JavaScript value, as far as the dispatch of \<open>as\<close> and \<open>from\<close> looks at it: a
  primitive, or an object given by the properties the dispatch tests. The fields of
  \<open>Object\<close> are: the items its \<open>[Symbol.iterator]()\<close> delivers, the items its
  \<open>[Symbol.asyncIterator]()\<close> delivers (\<open>None\<close> when it has no such method),
  whether it has a \<open>then\<close> method, whether it has a \<open>subscribe\<close> method, its
  numeric \<open>length\<close> and the items its \<open>next()\<close> delivers (\<open>None\<close> when it has no
  such property). A string is a list of characters; traversing it delivers its
  characters as strings of length one.
\<close>

datatype jsval =
    Undefined
  | Null
  | Boolean bool
  | Number int
  | String string
  | Object (iteratorItems: "jsval list option") (asyncIteratorItems: "jsval list option")
      (thenMethod: bool) (subscribeMethod: bool) (lengthProperty: "int option")
      (nextItems: "jsval list option")

text \<open>
  The argument of \<open>as\<close> and \<open>from\<close>: an instance of \<open>AsyncIterableX\<close>, or any
  other value.
\<close>

datatype 'x any = Instance 'x | Value jsval

type_synonym selector = "jsval \<Rightarrow> nat \<Rightarrow> err + jsval"

text \<open>
  The instances of \<open>AsyncIterableX\<close>: the five classes of \<open>asynciterablex.ts\<close>
  with the fields their constructors store, and the instances of the other
  subclasses (the operators, the stream adapters), told apart by a number.
\<close>

datatype seq =
    OfAsyncIterable "jsval list"
  | FromAsyncIterable "seq any" selector
  | FromPromiseIterable "seq any" selector
  | FromObservableAsyncIterable "seq any" selector
  | FromArrayIterable "seq any" selector
  | OtherAsyncIterableX nat

subsection \<open>The shape tests\<close>

text \<open>
  Modelled from the spec: \<open>isIterable\<close>, \<open>isAsyncIterable\<close>, \<open>isArrayLike\<close> and
  \<open>isIterator\<close> of \<open>internal/isiterable.ts\<close>, which is not among the sources. The
  specification names the shapes: "synchronous-iterable or asynchronous-iterable
  shape", "array-like (has a numeric length and indexed access, not necessarily
  iterable)". It gives none of these shapes to a text value, which has a rule of its
  own in "normalize", and none to any other primitive: as the tests \<open>isPromise\<close> and
  \<open>isObservable\<close> of the source do, each test accepts objects only. Of
  \<open>isIterator\<close> the specification says nothing; \<open>from\<close> uses its argument as the
  iterator that a \<open>[Symbol.asyncIterator]()\<close> returns, so the test is for an object
  with a \<open>next\<close> method. An instance of \<open>AsyncIterableX\<close> has a
  \<open>[Symbol.asyncIterator]\<close> method and none of the other properties.
\<close>

fun isIterable :: "'x any \<Rightarrow> bool" where
  "isIterable (Value (Object it ai th su le ne)) = (it \<noteq> None)"
| "isIterable _ = False"

fun isAsyncIterable :: "'x any \<Rightarrow> bool" where
  "isAsyncIterable (Instance x) = True"
| "isAsyncIterable (Value (Object it ai th su le ne)) = (ai \<noteq> None)"
| "isAsyncIterable _ = False"

fun isArrayLike :: "'x any \<Rightarrow> bool" where
  "isArrayLike (Value (Object it ai th su le ne)) = (le \<noteq> None)"
| "isArrayLike _ = False"

fun isIterator :: "'x any \<Rightarrow> bool" where
  "isIterator (Value (Object it ai th su le ne)) = (ne \<noteq> None)"
| "isIterator _ = False"

text \<open>
  \<open>isPromise\<close> and \<open>isObservable\<close> are in the source: the value is an object
  (\<open>x != null && Object(x) === x\<close>) whose \<open>then\<close>, respectively \<open>subscribe\<close>,
  is a function.
\<close>

fun isPromise :: "'x any \<Rightarrow> bool" where
  "isPromise (Value (Object it ai th su le ne)) = th"
| "isPromise _ = False"

fun isObservable :: "'x any \<Rightarrow> bool" where
  "isObservable (Value (Object it ai th su le ne)) = su"
| "isObservable _ = False"

text \<open>
  Modelled from the spec: \<open>identityAsync\<close> of \<open>internal/identity.ts\<close> and
  \<open>bindCallback\<close> of \<open>internal/bindcallback.ts\<close>, which are not among the
  sources. "The transform function defaults to identity when unspecified; when
  supplied, it is applied per item with (value, index)": binding \<open>thisArg\<close> leaves
  what the selector computes from the value and the index as it is.
\<close>

definition identityAsync :: selector where
  "identityAsync x i = Inr x"

definition bindCallback :: "selector \<Rightarrow> selector" where
  "bindCallback selector = selector"

subsection \<open>as, from, of and pipe\<close>

definition AsyncIterableX_as :: "seq any \<Rightarrow> seq" where
  "AsyncIterableX_as source =
     (case source of
        Instance x \<Rightarrow> x
      | Value v \<Rightarrow>
         (case v of
            String s \<Rightarrow> OfAsyncIterable [v]
          | _ \<Rightarrow>
             if isIterable source \<or> isAsyncIterable source
             then FromAsyncIterable source identityAsync
             else if isPromise source then FromPromiseIterable source identityAsync
             else if isObservable source then FromObservableAsyncIterable source identityAsync
             else if isArrayLike source then FromArrayIterable source identityAsync
             else OfAsyncIterable [v]))"

text \<open>
  The object \<open>{[Symbol.asyncIterator]: () => source}\<close> that \<open>from\<close> wraps an
  iterator in: traversing it delivers what the iterator's \<open>next()\<close> delivers.
\<close>

fun iterator_wrapper :: "'x any \<Rightarrow> jsval" where
  "iterator_wrapper (Value (Object it ai th su le ne)) = Object None ne False False None None"
| "iterator_wrapper _ = Object None None False False None None"

definition AsyncIterableX_from :: "seq any \<Rightarrow> selector \<Rightarrow> err + seq" where
  "AsyncIterableX_from source selector =
     (let fn = bindCallback selector in
      if isIterable source \<or> isAsyncIterable source then Inr (FromAsyncIterable source fn)
      else if isPromise source then Inr (FromPromiseIterable source fn)
      else if isObservable source then Inr (FromObservableAsyncIterable source fn)
      else if isArrayLike source then Inr (FromArrayIterable source fn)
      else if isIterator source
      then Inr (FromAsyncIterable (Value (iterator_wrapper source)) fn)
      else Inl TypeError)"

definition AsyncIterableX_of :: "jsval list \<Rightarrow> seq" where
  "AsyncIterableX_of args = OfAsyncIterable args"

text \<open>
  An argument of \<open>pipe\<close>: an operator function (it may throw), a writable Node
  stream, told apart by a number, an options object with its \<open>end\<close> property, or any
  other value. The method of the class calls each argument; calling what is not a
  function is a \<open>TypeError\<close>.
\<close>

datatype pipe_arg =
    Operator "seq \<Rightarrow> err + seq any"
  | Writable nat
  | Options "bool option"
  | OtherArg

fun AsyncIterableX_pipe :: "seq \<Rightarrow> pipe_arg list \<Rightarrow> err + seq" where
  "AsyncIterableX_pipe acc [] = Inr acc"
| "AsyncIterableX_pipe acc (Operator f # args) =
     (case f acc of
        Inl e \<Rightarrow> Inl e
      | Inr r \<Rightarrow> AsyncIterableX_pipe (AsyncIterableX_as r) args)"
| "AsyncIterableX_pipe acc (a # args) = Inl TypeError"

text \<open>
  \<open>nodePipe\<close> replaces the method outside of a browser. At a writable stream it
  stops and pipes what it has into the stream; \<open>isWritableNodeStream\<close>,
  \<open>isReadableNodeStream\<close> and \<open>toNodeStream\<close> are not among the sources, and all
  the model keeps of that step is its result, the destination with the \<open>end\<close> flag
  (the \<open>end\<close> property of the argument that follows, \<open>true\<close> when that is missing).
  Any other argument that is not a function is skipped.
\<close>

datatype pipe_result = Sequence seq | PipedInto nat bool

fun nodePipe :: "seq \<Rightarrow> pipe_arg list \<Rightarrow> err + pipe_result" where
  "nodePipe prev [] = Inr (Sequence prev)"
| "nodePipe prev (Operator f # args) =
     (case f prev of
        Inl e \<Rightarrow> Inl e
      | Inr r \<Rightarrow> nodePipe (AsyncIterableX_as r) args)"
| "nodePipe prev (Writable d # args) =
     Inr (PipedInto d (case args of Options (Some b) # rest \<Rightarrow> b | _ \<Rightarrow> True))"
| "nodePipe prev (a # args) = nodePipe prev args"

subsection \<open>Traversing a sequence\<close>

text \<open>
  The body of \<open>[Symbol.asyncIterator]\<close> of \<open>OfAsyncIterable\<close>; its local state is
  the position of the array iterator of \<open>for (let item of this._args)\<close>.
\<close>

definition OfAsyncIterable_asyncIterator ::
  "'a list \<Rightarrow> 'v \<Rightarrow> gen_state \<Rightarrow> nat \<Rightarrow> 'w \<Rightarrow> ('a step \<times> nat \<times> 'w) option" where
  "OfAsyncIterable_asyncIterator args v st i w =
     (if i < length args then Some (Yield (args ! i), Suc i, w) else Some (Done, i, w))"

text \<open>
  What \<open>for await (let item of source)\<close> traverses for a source that is not an
  instance of \<open>AsyncIterableX\<close>: the \<open>[Symbol.asyncIterator]()\<close> of the source if
  it has one, else its \<open>[Symbol.iterator]()\<close>; a string delivers its characters; a
  value with neither method makes the loop throw a \<open>TypeError\<close>.
\<close>

fun for_await_items :: "jsval \<Rightarrow> jsval list option" where
  "for_await_items (String s) = Some (map (\<lambda>c. String [c]) s)"
| "for_await_items (Object it ai th su le ne) = (case ai of Some xs \<Rightarrow> Some xs | None \<Rightarrow> it)"
| "for_await_items v = None"

text \<open>
  The body of \<open>[Symbol.asyncIterator]\<close> of \<open>FromAsyncIterable\<close> for such a source;
  its local state is the items still to come from the source and the counter \<open>i\<close>.
\<close>

definition FromAsyncIterable_asyncIterator ::
  "jsval \<Rightarrow> selector \<Rightarrow> 'v \<Rightarrow> gen_state \<Rightarrow> jsval list \<times> nat \<Rightarrow> 'w \<Rightarrow>
   (jsval step \<times> (jsval list \<times> nat) \<times> 'w) option" where
  "FromAsyncIterable_asyncIterator source selector v st l w =
     (case (case st of SuspendedStart \<Rightarrow> for_await_items source | _ \<Rightarrow> Some (fst l)) of
        None \<Rightarrow> Some (Throw TypeError, l, w)
      | Some [] \<Rightarrow> Some (Done, ([], snd l), w)
      | Some (item # rest) \<Rightarrow>
         (case selector item (snd l) of
            Inl e \<Rightarrow> Some (Throw e, (rest, Suc (snd l)), w)
          | Inr y \<Rightarrow> Some (Yield y, (rest, Suc (snd l)), w)))"

section \<open>Properties of fromdomstream.ts\<close>

subsection \<open>One read cycle of the buffer-reuse strategy\<close>

lemma filled_simps [simp]:
  "filled [] = 0"
  "filled ((view, r) # rest) = byteLength (rr_value r) + filled rest"
  by (simp_all add: filled_def)

lemma length_fill_bytes [simp]: "length (fill_bytes b off n) = length b"
  by (induction n) simp_all

lemma byob_contract_chunks_of: "0 < k \<Longrightarrow> byob_contract (chunks_of k)"
  by (auto simp: byob_contract_def chunks_of_def Let_def)


text \<open>
  A request whose offset has reached the target size is answered at once, whatever
  the reader is.
\<close>

lemma readInto_at_target:
  "sz \<le> offset \<Longrightarrow> sz \<le> length buf \<Longrightarrow>
   readInto rd s buf offset sz =
     Some (Inr \<lparr>rr_done = False,
                rr_value = \<lparr>buffer = buf, byteOffset = 0, byteLength = sz\<rparr>\<rparr>, s)"
  by (subst readInto.simps) (simp add: new_Uint8Array_def)



text \<open>
  The two cycles of the specification, run. Ten bytes are asked of a stream that
  delivers three bytes per read and never ends: four reads (3 + 3 + 3 + 1), one region
  of ten bytes. Ten bytes are asked of a stream that has four bytes and then ends: two
  reads, one region of four bytes with \<open>done\<close> set.
\<close>

lemma readInto_ten_from_chunks_of_three:
  "map_option (\<lambda>(res, s, log). (res, map (\<lambda>(view, r). byteLength (rr_value r)) log))
     (readInto (recording (chunks_of 3)) ((), []) (new_ArrayBuffer 10) 0 10) =
   Some (Inr \<lparr>rr_done = False,
              rr_value = \<lparr>buffer = [1, 1, 1, 1, 1, 1, 1, 1, 1, 1], byteOffset = 0,
                          byteLength = 10\<rparr>\<rparr>,
         [3, 3, 3, 1])"
  by code_simp

lemma readInto_ten_from_four_bytes:
  "map_option (\<lambda>(res, s, log). (res, map (\<lambda>(view, r). byteLength (rr_value r)) log))
     (readInto (recording (bytes_then_end 4)) (4, []) (new_ArrayBuffer 10) 0 10) =
   Some (Inr \<lparr>rr_done = True,
              rr_value = \<lparr>buffer = [1, 1, 1, 1, 0, 0, 0, 0, 0, 0], byteOffset = 0,
                          byteLength = 4\<rparr>\<rparr>,
         [4, 0])"
  by code_simp

text \<open>
  The answer for every buffer: when the target size exceeds the buffer the region does
  not exist and \<open>new Uint8Array\<close> raises; the stream is not read either.
\<close>

lemma readInto_at_target_unread:
  "sz \<le> offset \<Longrightarrow>
   readInto rd s buf offset sz =
     Some (if sz \<le> length buf
           then Inr \<lparr>rr_done = False,
                      rr_value = \<lparr>buffer = buf, byteOffset = 0, byteLength = sz\<rparr>\<rparr>
           else Inl RangeError, s)"
  by (subst readInto.simps) (simp add: new_Uint8Array_def)

text \<open>
  C7. For every reader, buffer, offset and target size \<open>sz\<close> with the offset at or
  beyond \<open>sz\<close>, the request is answered at once and the stream is not read: the
  state of the stream is returned as it was, the answer is the same for a reader with
  a notebook, and the notebook has no new entry. The answer has \<open>done = false\<close> and
  the region of the first \<open>sz\<close> bytes of the buffer (the empty region for
  \<open>sz = 0\<close>) whenever the buffer has \<open>sz\<close> bytes, as it has in every call that
  \<open>readNext\<close> makes, where \<open>sz\<close> is the length of the buffer.
\<close>

theorem readInto_offset_at_target:
  assumes "sz \<le> offset"
  shows "\<exists>res.
      readInto rd s buf offset sz = Some (res, s) \<and>
      readInto (recording rd) (s, log) buf offset sz = Some (res, (s, log)) \<and>
      (sz \<le> length buf \<longrightarrow>
         res = Inr \<lparr>rr_done = False,
                    rr_value = \<lparr>buffer = buf, byteOffset = 0, byteLength = sz\<rparr>\<rparr>)"
  using assms by (simp add: readInto_at_target_unread)

theorem readInto_offset_at_target_witness:
  "(0::nat) \<le> 0 \<and>
   readInto (chunks_of 3) () (new_ArrayBuffer 0) 0 0 =
     Some (Inr \<lparr>rr_done = False,
                rr_value = \<lparr>buffer = [], byteOffset = 0, byteLength = 0\<rparr>\<rparr>, ()) \<and>
   readInto (recording (chunks_of 3)) ((), []) (new_ArrayBuffer 0) 0 0 =
     Some (Inr \<lparr>rr_done = False,
                rr_value = \<lparr>buffer = [], byteOffset = 0, byteLength = 0\<rparr>\<rparr>, ((), []))"
proof -
  have zero: "(0::nat) \<le> 0"
    by simp
  from readInto_offset_at_target [OF zero, of "chunks_of 3" "()" "new_ArrayBuffer 0" "[]"]
  show ?thesis
    by (simp add: new_ArrayBuffer_def)
qed

text \<open>
  The same through \<open>readNext\<close>, the only caller: a request for zero bytes is answered
  with the empty region and \<open>done = false\<close>, and the stream is not read.
\<close>

lemma readNext_zero_bytes:
  "readNext reader (Len 0) 0 s =
     Some (Inr \<lparr>rr_done = False,
                rr_value = Some \<lparr>buffer = [], byteOffset = 0, byteLength = 0\<rparr>\<rparr>, s)"
  by (simp add: readNext_def readInto_at_target new_ArrayBuffer_def some_value_def)

subsection \<open>The resource-release wrapper\<close>

lemma dependable_cancel: "dependable R \<Longrightarrow> cancel R None s = (c, s') \<Longrightarrow> c = None"
  by (metis dependable_def fst_conv)

lemma dependable_releaseLock: "dependable R \<Longrightarrow> releaseLock R s = (c, s') \<Longrightarrow> c = None"
  by (metis dependable_def fst_conv)

lemma untouched_trans: "untouched w w1 \<Longrightarrow> untouched w1 w' \<Longrightarrow> untouched w w'"
  by (simp add: untouched_def)

lemma untouched_released_once:
  "untouched w w1 \<Longrightarrow> released_once R w1 w' \<Longrightarrow> released_once R w w'"
  by (auto simp: untouched_def released_once_def)

text \<open>
  An answer of the delegated iterator is either passed on, and then nothing is
  released, or it ends the iteration, and then the release actions run once.
\<close>

lemma consumeReader_settle_cases:
  "consumeReader_settle (Some R) r w = (r', w') \<Longrightarrow>
     (case r of
        Yield x \<Rightarrow> r' = Yield x \<and> w' = w
      | _ \<Rightarrow> (\<forall>x. r' \<noteq> Yield x) \<and> released_once R w w')"
  by (auto simp: consumeReader_settle_def consumeReader_finally_def consumeReader_catch_def
        reader_cancel_def reader_releaseLock_def released_once_def
      split: step.splits prod.splits option.splits if_splits
      dest: dependable_cancel dependable_releaseLock)

lemma consumeReader_request_running:
  assumes "consumeReader_request (Some R) it q g w = Some (r, g', w')"
    and "g_state g = SuspendedYield \<or> (g_state g = SuspendedStart \<and> (\<exists>v. q = Next v))"
  shows "(g_state g' = SuspendedYield \<and> (\<exists>x. r = Yield x) \<and> untouched w w') \<or>
         (g_state g' = Completed \<and> (\<forall>x. r \<noteq> Yield x) \<and> released_once R w w')"
proof -
  obtain r0 i' s' where
    settle: "consumeReader_settle (Some R) r0 (w\<lparr>underlying := s'\<rparr>) = (r, w')"
    and g': "g_state g' = (case r of Yield x \<Rightarrow> SuspendedYield | _ \<Rightarrow> Completed)"
    using assms
    by (auto simp: consumeReader_request_def generator_next_def consumeReader_def
          consumeReader_return_def
        split: request.splits gen_state.splits option.splits prod.splits)
  from consumeReader_settle_cases [OF settle] have
    "case r0 of
       Yield x \<Rightarrow> r = Yield x \<and> w' = w\<lparr>underlying := s'\<rparr>
     | _ \<Rightarrow> (\<forall>x. r \<noteq> Yield x) \<and> released_once R (w\<lparr>underlying := s'\<rparr>) w'" .
  moreover have "released_once R (w\<lparr>underlying := s'\<rparr>) w' = released_once R w w'"
    by (simp add: released_once_def)
  ultimately show ?thesis
    using g' by (cases r0) (auto simp: untouched_def split: step.splits)
qed

lemma consumeReader_request_completed:
  "g_state g = Completed \<Longrightarrow> consumeReader_request reader it q g w = Some (Done, g, w)"
  by (simp add: consumeReader_request_def generator_next_def consumeReader_return_def
      split: request.splits)

lemma consumeReader_run_completed:
  "g_state g = Completed \<Longrightarrow>
   consumeReader_run reader it qs g w = Some (replicate (length qs) Done, g, w)"
  by (induction qs) (simp_all add: consumeReader_request_completed)

lemma consumeReader_run_running:
  "consumeReader_run (Some R) it qs g w = Some (rs, g', w') \<Longrightarrow>
   g_state g = SuspendedYield \<Longrightarrow>
     (if \<forall>r \<in> set rs. \<exists>x. r = Yield x
      then g_state g' = SuspendedYield \<and> untouched w w'
      else g_state g' = Completed \<and> released_once R w w')"
proof (induction qs arbitrary: g w rs)
  case Nil
  then show ?case by (simp add: untouched_def)
next
  case (Cons q qs)
  from Cons.prems(1) obtain r g1 w1 rs' where
    req: "consumeReader_request (Some R) it q g w = Some (r, g1, w1)"
    and run: "consumeReader_run (Some R) it qs g1 w1 = Some (rs', g', w')"
    and rs: "rs = r # rs'"
    by (auto split: option.splits prod.splits)
  from consumeReader_request_running [OF req] Cons.prems(2)
  consider "g_state g1 = SuspendedYield" "\<exists>x. r = Yield x" "untouched w w1"
    | "g_state g1 = Completed" "\<forall>x. r \<noteq> Yield x" "released_once R w w1"
    by blast
  then show ?case
  proof cases
    case 1
    from Cons.IH [OF run 1(1)] 1(2,3) rs show ?thesis
      by (auto intro: untouched_trans untouched_released_once split: if_splits)
  next
    case 2
    with run rs consumeReader_run_completed [of g1 "Some R" it qs w1] show ?thesis
      by auto
  qed
qed

text \<open>
  The same for a consumer that starts the generator with a \<open>next\<close>.
\<close>

lemma consumeReader_run_started:
  assumes "consumeReader_run (Some R) it (Next v # qs)
             \<lparr>g_state = SuspendedStart, g_locals = i\<rparr> w = Some (rs, g', w')"
  shows "if \<forall>r \<in> set rs. \<exists>x. r = Yield x
         then g_state g' = SuspendedYield \<and> untouched w w'
         else g_state g' = Completed \<and> released_once R w w'"
proof -
  let ?g = "\<lparr>g_state = SuspendedStart, g_locals = i\<rparr>"
  from assms obtain r g1 w1 rs' where
    req: "consumeReader_request (Some R) it (Next v) ?g w = Some (r, g1, w1)"
    and run: "consumeReader_run (Some R) it qs g1 w1 = Some (rs', g', w')"
    and rs: "rs = r # rs'"
    by (auto split: option.splits prod.splits)
  from consumeReader_request_running [OF req]
  consider "g_state g1 = SuspendedYield" "\<exists>x. r = Yield x" "untouched w w1"
    | "g_state g1 = Completed" "\<forall>x. r \<noteq> Yield x" "released_once R w w1"
    by auto
  then show ?thesis
  proof cases
    case 1
    from consumeReader_run_running [OF run 1(1)] 1(2,3) rs show ?thesis
      by (auto intro: untouched_trans untouched_released_once split: if_splits)
  next
    case 2
    with run rs consumeReader_run_completed [of g1 "Some R" it qs w1] show ?thesis
      by auto
  qed
qed




text \<open>
  The two sequence classes. Their iterators are the wrapper around the generator of
  their reading strategy, so a consumer of the default class whose first request is a
  \<open>next\<close>, and every consumer of the byte stream class that got a buffer-reuse
  reader (its iterator was started by \<open>[Symbol.asyncIterator]()\<close>), leaves the
  stream as described above; the world before is the stream locked by the reader.
\<close>

lemma stream_iterator_run_default:
  "si_strategy it = DefaultReader \<Longrightarrow>
   stream_iterator_run qs it w =
     map_option (\<lambda>(rs, g', w'). (rs, it\<lparr>si_gen := g'\<rparr>, w'))
       (consumeReader_run (Some (si_reader it)) (default_iterator (si_reader it)) qs (si_gen it) w)"
proof (induction qs arbitrary: it w)
  case Nil
  then show ?case by simp
next
  case (Cons q qs)
  show ?case
  proof (cases "consumeReader_request (Some (si_reader it)) (default_iterator (si_reader it)) q (si_gen it) w")
    case None
    then show ?thesis
      using Cons.prems by (simp add: stream_iterator_request_def)
  next
    case (Some a)
    obtain r g1 w1 where a: "a = (r, g1, w1)" by (cases a)
    have "stream_iterator_request q it w = Some (r, it\<lparr>si_gen := g1\<rparr>, w1)"
      using Some a Cons.prems by (simp add: stream_iterator_request_def)
    moreover have "si_strategy (it\<lparr>si_gen := g1\<rparr>) = DefaultReader"
      using Cons.prems by simp
    ultimately show ?thesis
      using Some a Cons.IH [of "it\<lparr>si_gen := g1\<rparr>" w1]
      by (auto split: option.splits)
  qed
qed

lemma stream_iterator_run_byob:
  "si_strategy it = ByobReader \<Longrightarrow>
   stream_iterator_run qs it w =
     map_option (\<lambda>(rs, g', w'). (rs, it\<lparr>si_gen := g'\<rparr>, w'))
       (consumeReader_run (Some (si_reader it)) (byob_iterator (si_reader it)) qs (si_gen it) w)"
proof (induction qs arbitrary: it w)
  case Nil
  then show ?case by simp
next
  case (Cons q qs)
  show ?case
  proof (cases "consumeReader_request (Some (si_reader it)) (byob_iterator (si_reader it)) q (si_gen it) w")
    case None
    then show ?thesis
      using Cons.prems by (simp add: stream_iterator_request_def)
  next
    case (Some a)
    obtain r g1 w1 where a: "a = (r, g1, w1)" by (cases a)
    have "stream_iterator_request q it w = Some (r, it\<lparr>si_gen := g1\<rparr>, w1)"
      using Some a Cons.prems by (simp add: stream_iterator_request_def)
    moreover have "si_strategy (it\<lparr>si_gen := g1\<rparr>) = ByobReader"
      using Cons.prems by simp
    ultimately show ?thesis
      using Some a Cons.IH [of "it\<lparr>si_gen := g1\<rparr>" w1]
      by (auto split: option.splits)
  qed
qed

lemma default_stream_releases_once:
  assumes "iterate AsyncIterableReadableStream stream (Next v # qs) w = Some (Inr rs, w')"
  shows "\<exists>R s1. getReader stream (underlying w) = (Inr R, s1) \<and>
     (if \<forall>r \<in> set rs. \<exists>x. r = Yield x
      then untouched (w\<lparr>underlying := s1, locked := True\<rparr>) w'
      else released_once R (w\<lparr>underlying := s1, locked := True\<rparr>) w')"
proof -
  from assms obtain R s1 where
    gr: "getReader stream (underlying w) = (Inr R, s1)"
    by (cases "getReader stream (underlying w)")
       (auto simp: iterate_def asyncIterator_def AsyncIterableReadableStream_asyncIterator_def
          stream_getReader_def split: sum.splits)
  let ?w1 = "w\<lparr>underlying := s1, locked := True\<rparr>"
  let ?it = "\<lparr>si_reader = R, si_strategy = DefaultReader, si_gen = fresh_generator\<rparr>"
  from assms gr have "\<exists>it'. stream_iterator_run (Next v # qs) ?it ?w1 = Some (rs, it', w')"
    by (auto simp: iterate_def asyncIterator_def AsyncIterableReadableStream_asyncIterator_def
          stream_getReader_def split: option.splits)
  then obtain g' where
    run: "consumeReader_run (Some R) (default_iterator R) (Next v # qs) fresh_generator ?w1 =
            Some (rs, g', w')"
    using stream_iterator_run_default [of ?it "Next v # qs" ?w1]
    by (cases "consumeReader_run (Some R) (default_iterator R) (Next v # qs) fresh_generator ?w1") auto
  from consumeReader_run_started [OF run [unfolded fresh_generator_def]] gr
  show ?thesis
    by (auto split: if_splits)
qed

lemma byob_pump:
  "stream_iterator_request (Next OtherValue)
     \<lparr>si_reader = R, si_strategy = ByobReader, si_gen = fresh_generator\<rparr> w =
   Some (Yield None,
         \<lparr>si_reader = R, si_strategy = ByobReader,
          si_gen = \<lparr>g_state = SuspendedYield,
                    g_locals = \<lparr>g_state = SuspendedYield, g_locals = ()\<rparr>\<rparr>\<rparr>, w)"
  by (simp add: stream_iterator_request_def consumeReader_request_def generator_next_def
      consumeReader_def byob_iterator_def byobReaderToAsyncIterator_def fresh_generator_def
      consumeReader_settle_def)

lemma byob_stream_releases_once:
  assumes "iterate AsyncIterableReadableByteStream stream qs w = Some (Inr rs, w')"
    and "getReader_byob stream (underlying w) = (Inr R, s1)"
  shows "if \<forall>r \<in> set rs. \<exists>x. r = Yield x
         then untouched (w\<lparr>underlying := s1, locked := True\<rparr>) w'
         else released_once R (w\<lparr>underlying := s1, locked := True\<rparr>) w'"
proof -
  let ?w1 = "w\<lparr>underlying := s1, locked := True\<rparr>"
  let ?it = "\<lparr>si_reader = R, si_strategy = ByobReader, si_gen = fresh_generator\<rparr>"
  let ?it1 = "\<lparr>si_reader = R, si_strategy = ByobReader,
          si_gen = \<lparr>g_state = SuspendedYield,
                    g_locals = \<lparr>g_state = SuspendedYield, g_locals = ()\<rparr>\<rparr>\<rparr>"
  from assms have "\<exists>it'. stream_iterator_run qs ?it1 ?w1 = Some (rs, it', w')"
    by (auto simp: iterate_def asyncIterator_def
          AsyncIterableReadableByteStream_asyncIterator_def stream_getReader_byob_def byob_pump
        split: option.splits)
  then have "\<exists>it'. stream_iterator_run (Next OtherValue # qs) ?it ?w1 =
               Some (Yield None # rs, it', w')"
    by (auto simp: byob_pump)
  then obtain g' where
    run: "consumeReader_run (Some R) (byob_iterator R) (Next OtherValue # qs) fresh_generator ?w1 =
            Some (Yield None # rs, g', w')"
    using stream_iterator_run_byob [of ?it "Next OtherValue # qs" ?w1]
    by (cases "consumeReader_run (Some R) (byob_iterator R) (Next OtherValue # qs)
                 fresh_generator ?w1") auto
  from consumeReader_run_started [OF run [unfolded fresh_generator_def]]
  show ?thesis
    by (auto split: if_splits)
qed

text \<open>
  C3, as the code has it. When the delegated iterator fails with \<open>E\<close>, the wrapper
  cancels the reader once, with \<open>E\<close> as the reason, and the generator completes. The
  \<open>catch\<close> block does not raise \<open>E\<close> again: the consumer is answered \<open>done\<close>
  when that \<open>cancel\<close> succeeds, and with the rejection of that \<open>cancel\<close> when it
  fails. In both cases \<open>releaseLock\<close> is called if the stream is locked; what it
  throws is swallowed, so the stream can only stay locked when \<open>releaseLock\<close> threw.
\<close>

theorem consumeReader_inner_failure:
  assumes "g_state g \<noteq> Completed"
    and "it_next it v (g_locals g) (underlying w) = Some (Throw E, i', s')"
  shows "\<exists>g' w'.
    generator_next (consumeReader (Some R) it) v g w =
      Some ((case fst (cancel R (Some E) s') of None \<Rightarrow> Done | Some E' \<Rightarrow> Throw E'),
            g', w') \<and>
    g_state g' = Completed \<and>
    cancels w' = cancels w @ [Some E] \<and>
    releases w' = (if locked w then Suc (releases w) else releases w) \<and>
    (locked w' \<longrightarrow> locked w \<and> fst (releaseLock R (snd (cancel R (Some E) s'))) \<noteq> None)"
  using assms
  by (cases "g_state g")
    (auto simp: generator_next_def consumeReader_def consumeReader_settle_def
      consumeReader_catch_def consumeReader_finally_def reader_cancel_def
      reader_releaseLock_def
      split: prod.splits option.splits)

text \<open>
  A stream that has failed with \<open>Failure 1\<close> and, as the streams of the platform do,
  rejects \<open>cancel\<close> with the error it has stored: the consumer observes that error.
\<close>

theorem consumeReader_inner_failure_witness:
  "g_state \<lparr>g_state = SuspendedStart, g_locals = \<lparr>g_state = SuspendedStart, g_locals = ()\<rparr>\<rparr>
     \<noteq> Completed \<and>
   it_next (default_iterator (example_reader (Some (Failure 1)) (Some (Failure 1)) None))
     OtherValue \<lparr>g_state = SuspendedStart, g_locals = ()\<rparr> (6::nat) =
     Some (Throw (Failure 1), \<lparr>g_state = Completed, g_locals = ()\<rparr>, 6) \<and>
   (\<exists>g' w'.
      generator_next
        (consumeReader (Some (example_reader (Some (Failure 1)) (Some (Failure 1)) None))
           (default_iterator (example_reader (Some (Failure 1)) (Some (Failure 1)) None)))
        OtherValue
        \<lparr>g_state = SuspendedStart, g_locals = \<lparr>g_state = SuspendedStart, g_locals = ()\<rparr>\<rparr>
        \<lparr>underlying = 6, locked = True, cancels = [], releases = 0\<rparr> =
        Some (Throw (Failure 1), g', w') \<and>
      g_state g' = Completed \<and>
      cancels w' = [Some (Failure 1)] \<and>
      releases w' = 1 \<and>
      \<not> locked w')"
proof -
  let ?R = "example_reader (Some (Failure 1)) (Some (Failure 1)) None"
  let ?g = "\<lparr>g_state = SuspendedStart, g_locals = \<lparr>g_state = SuspendedStart, g_locals = ()\<rparr>\<rparr>"
  let ?w = "\<lparr>underlying = 6::nat, locked = True, cancels = [], releases = 0\<rparr>"
  have running: "g_state ?g \<noteq> Completed"
    by simp
  have inner: "it_next (default_iterator ?R) OtherValue (g_locals ?g) (underlying ?w) =
     Some (Throw (Failure 1), \<lparr>g_state = Completed, g_locals = ()\<rparr>, 6)"
    by (simp add: default_iterator_def generator_next_def defaultReaderToAsyncIterator_def
        example_reader_def)
  from consumeReader_inner_failure [OF running inner, of ?R] inner
  show ?thesis
    by (simp add: example_reader_def)
qed

text \<open>
  Reads that fail with \<open>Failure 1\<close>. With a \<open>cancel\<close> that succeeds the consumer
  is answered \<open>done\<close> and never sees the failure; with a \<open>cancel\<close> that rejects
  with \<open>Failure 2\<close> the consumer observes \<open>Failure 2\<close>.
\<close>

theorem consumeReader_swallows_failure:
  "iterate AsyncIterableReadableStream
     (example_stream (example_reader (Some (Failure 1)) None None) True)
     [Next OtherValue] (unlocked_stream 6) =
   Some (Inr [Done],
         \<lparr>underlying = 0, locked = False, cancels = [Some (Failure 1)], releases = 1\<rparr>) \<and>
   iterate AsyncIterableReadableStream
     (example_stream (example_reader (Some (Failure 1)) (Some (Failure 2)) None) True)
     [Next OtherValue] (unlocked_stream 6) =
   Some (Inr [Throw (Failure 2)],
         \<lparr>underlying = 0, locked = False, cancels = [Some (Failure 1)], releases = 1\<rparr>)"
  by code_simp

subsection \<open>The byte stream class\<close>

text \<open>
  C6. If \<open>getReader({mode: 'byob'})\<close> throws, \<open>[Symbol.asyncIterator]()\<close> of the
  byte stream class returns what the method of the default class returns for the
  stream as the failed call left it, and every sequence of requests gets from it the
  answers the iterator of the default class gives.
\<close>

theorem byte_stream_falls_back:
  assumes "getReader_byob stream (underlying w) = (Inl e, s')"
  shows "AsyncIterableReadableByteStream_asyncIterator stream w =
           Some (AsyncIterableReadableStream_asyncIterator stream (w\<lparr>underlying := s'\<rparr>)) \<and>
         iterate AsyncIterableReadableByteStream stream qs w =
           iterate AsyncIterableReadableStream stream qs (w\<lparr>underlying := s'\<rparr>)"
  using assms
  by (simp add: AsyncIterableReadableByteStream_asyncIterator_def stream_getReader_byob_def
      iterate_def asyncIterator_def)

text \<open>
  A stream of six bytes that refuses a buffer-reuse reader: requests for ten bytes
  are answered with the chunks of the default strategy.
\<close>

theorem byte_stream_falls_back_witness:
  "getReader_byob (example_stream (example_reader None None None) False)
     (underlying (unlocked_stream 6)) = (Inl TypeError, 6) \<and>
   AsyncIterableReadableByteStream_asyncIterator
     (example_stream (example_reader None None None) False) (unlocked_stream 6) =
     Some (AsyncIterableReadableStream_asyncIterator
             (example_stream (example_reader None None None) False) (unlocked_stream 6)) \<and>
   iterate AsyncIterableReadableByteStream (example_stream (example_reader None None None) False)
     [Next (Len 10), Next (Len 10), Next (Len 10)] (unlocked_stream 6) =
     Some (Inr [Yield (Some \<lparr>buffer = [1, 1, 1, 1], byteOffset = 0, byteLength = 4\<rparr>),
                Yield (Some \<lparr>buffer = [1, 1], byteOffset = 0, byteLength = 2\<rparr>),
                Done],
           \<lparr>underlying = 0, locked = False, cancels = [None], releases = 1\<rparr>)"
proof -
  let ?S = "example_stream (example_reader None None None) False"
  have refuse: "getReader_byob ?S (underlying (unlocked_stream 6)) = (Inl TypeError, 6)"
    by (simp add: example_stream_def unlocked_stream_def)
  have same: "(unlocked_stream (6::nat))\<lparr>underlying := 6\<rparr> = unlocked_stream 6"
    by (simp add: unlocked_stream_def)
  have default: "iterate AsyncIterableReadableStream ?S
     [Next (Len 10), Next (Len 10), Next (Len 10)] (unlocked_stream 6) =
     Some (Inr [Yield (Some \<lparr>buffer = [1, 1, 1, 1], byteOffset = 0, byteLength = 4\<rparr>),
                Yield (Some \<lparr>buffer = [1, 1], byteOffset = 0, byteLength = 2\<rparr>),
                Done],
           \<lparr>underlying = 0, locked = False, cancels = [None], releases = 1\<rparr>)"
    by code_simp
  from byte_stream_falls_back [OF refuse, of "[Next (Len 10), Next (Len 10), Next (Len 10)]"]
    refuse same default
  show ?thesis
    by simp
qed

text \<open>
  The buffer-reuse strategy on a source of fourteen bytes, asked twice for ten bytes.
  The first cycle is answered with a region of ten bytes. The second cycle fills four
  bytes before the stream ends; \<open>readNext\<close> returns them with \<open>done\<close> set, and the
  loop of \<open>byobReaderToAsyncIterator\<close> ends on that flag without a \<open>yield\<close>.
\<close>

lemma byob_adapter_fourteen_bytes:
  "iterate AsyncIterableReadableByteStream (example_stream (example_reader None None None) True)
     [Next (Len 10), Next (Len 10)] (unlocked_stream 14) =
   Some (Inr [Yield (Some \<lparr>buffer = [1, 1, 1, 1, 1, 1, 1, 1, 1, 1], byteOffset = 0,
                           byteLength = 10\<rparr>),
              Done],
         \<lparr>underlying = 0, locked = False, cancels = [None], releases = 1\<rparr>)"
  by code_simp

subsection \<open>One read cycle of the buffer-reuse adapter\<close>

text \<open>
  The iterator that the byte stream class hands out with a buffer-reuse reader is
  primed. A request for \<open>N\<close> bytes to the primed iterator runs one cycle of
  \<open>readInto\<close>; what the consumer is answered depends on the result of the cycle.
\<close>

lemma byte_stream_iterator_is_primed:
  "getReader_byob stream (underlying w) = (Inr R, s1) \<Longrightarrow>
   AsyncIterableReadableByteStream_asyncIterator stream w =
     Some (Inr (primed_byob_iterator R), w\<lparr>underlying := s1, locked := True\<rparr>)"
  by (simp add: AsyncIterableReadableByteStream_asyncIterator_def stream_getReader_byob_def
      byob_pump primed_byob_iterator_def)








section \<open>Properties of asynciterablex.ts\<close>

subsection \<open>Generators\<close>

lemma generator_next_completed:
  "g_state g = Completed \<Longrightarrow> generator_next body v g w = Some (Done, g, w)"
  by (simp add: generator_next_def)

lemma generator_next_Done_completed:
  "generator_next body v g w = Some (Done, g', w') \<Longrightarrow> g_state g' = Completed"
  by (auto simp: generator_next_def split: gen_state.splits option.splits)

lemma generator_run_completed:
  "g_state g = Completed \<Longrightarrow>
   generator_run body vs g w = Some (replicate (length vs) Done, g, w)"
  by (induction vs) (simp_all add: generator_next_completed)

text \<open>
  C8. Every iterator of the library is an async generator object. Once a \<open>next\<close> of
  such an object has answered \<open>done\<close>, whatever the body of the generator is, every
  later \<open>next\<close> answers \<open>done\<close> too, for any values sent and in any state of the
  world: none yields a value, none fails, and neither the generator nor the world
  changes.
\<close>

theorem generator_done_is_final:
  assumes "generator_next body v g w = Some (Done, g', w')"
  shows "generator_run body vs g' w'' = Some (replicate (length vs) Done, g', w'')"
  using assms by (intro generator_run_completed generator_next_Done_completed)

theorem generator_done_is_final_witness:
  "generator_next (OfAsyncIterable_asyncIterator [String ''a'', String ''b'']) ()
     \<lparr>g_state = SuspendedYield, g_locals = 2\<rparr> () =
     Some (Done, \<lparr>g_state = Completed, g_locals = 2\<rparr>, ()) \<and>
   generator_run (OfAsyncIterable_asyncIterator [String ''a'', String ''b'']) [(), (), ()]
     \<lparr>g_state = Completed, g_locals = 2\<rparr> () =
     Some ([Done, Done, Done], \<lparr>g_state = Completed, g_locals = 2\<rparr>, ())"
proof -
  have first: "generator_next (OfAsyncIterable_asyncIterator [String ''a'', String ''b'']) ()
     \<lparr>g_state = SuspendedYield, g_locals = 2\<rparr> () =
     Some (Done, \<lparr>g_state = Completed, g_locals = 2\<rparr>, ())"
    by (simp add: generator_next_def OfAsyncIterable_asyncIterator_def)
  from generator_done_is_final [OF first, of "[(), (), ()]" "()"] first show ?thesis
    by simp
qed

subsection \<open>OfAsyncIterable and as\<close>

text \<open>
  A sequence made by \<open>of\<close> yields its arguments in order and then reports the end:
  from position \<open>i\<close> on, the items from \<open>i\<close> on.
\<close>

lemma OfAsyncIterable_run:
  "i \<le> length args \<Longrightarrow> st \<noteq> Completed \<Longrightarrow>
   generator_run (OfAsyncIterable_asyncIterator args) (replicate (Suc (length args - i)) v)
     \<lparr>g_state = st, g_locals = i\<rparr> w =
   Some (map Yield (drop i args) @ [Done], \<lparr>g_state = Completed, g_locals = length args\<rparr>, w)"
proof (induction "length args - i" arbitrary: i st)
  case 0
  then show ?case
    by (cases st) (simp_all add: generator_next_def OfAsyncIterable_asyncIterator_def)
next
  case (Suc n)
  then have i: "i < length args" and n: "n = length args - Suc i" by simp_all
  have step: "generator_next (OfAsyncIterable_asyncIterator args) v
       \<lparr>g_state = st, g_locals = i\<rparr> w =
     Some (Yield (args ! i), \<lparr>g_state = SuspendedYield, g_locals = Suc i\<rparr>, w)"
    using i Suc.prems
    by (cases st) (simp_all add: generator_next_def OfAsyncIterable_asyncIterator_def)
  have "generator_run (OfAsyncIterable_asyncIterator args)
       (replicate (Suc (length args - Suc i)) v)
       \<lparr>g_state = SuspendedYield, g_locals = Suc i\<rparr> w =
     Some (map Yield (drop (Suc i) args) @ [Done],
           \<lparr>g_state = Completed, g_locals = length args\<rparr>, w)"
    using Suc.hyps(1) [OF n] i by simp
  moreover have "Suc (length args - i) = Suc (Suc (length args - Suc i))"
    using i by simp
  moreover have "drop i args = args ! i # drop (Suc i) args"
    using i by (simp add: Cons_nth_drop_Suc)
  ultimately show ?case
    using step by simp
qed

lemma of_three_items:
  "generator_run (OfAsyncIterable_asyncIterator [Number 1, Number 2, Number 3])
     [(), (), (), ()] \<lparr>g_state = SuspendedStart, g_locals = 0\<rparr> () =
   Some ([Yield (Number 1), Yield (Number 2), Yield (Number 3), Done],
         \<lparr>g_state = Completed, g_locals = 3\<rparr>, ())"
  by code_simp

text \<open>
  C5. For every string \<open>s\<close>, \<open>as\<close> returns the sequence of the single item \<open>s\<close>:
  traversed, its first answer is \<open>s\<close> itself, whole, and every answer after that is
  \<open>done\<close>.
\<close>

theorem as_string_is_single_item:
  "AsyncIterableX_as (Value (String s)) = OfAsyncIterable [String s] \<and>
   generator_run (OfAsyncIterable_asyncIterator [String s]) (v1 # v2 # vs)
     \<lparr>g_state = SuspendedStart, g_locals = 0\<rparr> w =
   Some (Yield (String s) # Done # replicate (length vs) Done,
         \<lparr>g_state = Completed, g_locals = 1\<rparr>, w)"
  by (simp add: AsyncIterableX_as_def generator_next_def OfAsyncIterable_asyncIterator_def
      generator_run_completed)

subsection \<open>pipe\<close>

text \<open>
  C9. For every sequence \<open>s\<close>, \<open>pipe\<close> without operations returns \<open>s\<close> itself,
  both as the method of the class and as \<open>nodePipe\<close>.
\<close>

theorem pipe_nothing_is_identity:
  "AsyncIterableX_pipe s [] = Inr s \<and> nodePipe s [] = Inr (Sequence s)"
  by simp

subsection \<open>from\<close>

text \<open>
  C4, as the code has it. \<open>from\<close> fails with the \<open>TypeError\<close> for every input
  that is neither iterable, nor asynchronously iterable (as every instance of
  \<open>AsyncIterableX\<close> is), nor a promise, nor an observable, nor array-like, nor an
  iterator.
\<close>

theorem from_unsupported_input:
  assumes "\<not> isIterable source" and "\<not> isAsyncIterable source" and "\<not> isPromise source"
    and "\<not> isObservable source" and "\<not> isArrayLike source" and "\<not> isIterator source"
  shows "AsyncIterableX_from source selector = Inl TypeError"
  using assms by (simp add: AsyncIterableX_from_def)

theorem from_unsupported_input_witness:
  "\<not> isIterable (Value (Number 5) :: seq any) \<and>
   \<not> isAsyncIterable (Value (Number 5) :: seq any) \<and>
   \<not> isPromise (Value (Number 5) :: seq any) \<and>
   \<not> isObservable (Value (Number 5) :: seq any) \<and>
   \<not> isArrayLike (Value (Number 5) :: seq any) \<and>
   \<not> isIterator (Value (Number 5) :: seq any) \<and>
   AsyncIterableX_from (Value (Number 5)) identityAsync = Inl TypeError"
  using from_unsupported_input [of "Value (Number 5)" identityAsync] by simp

text \<open>
  An object that has a \<open>next\<close> method and nothing else has none of the shapes of the
  rules 3 to 6, and \<open>from\<close> returns a sequence for it: the sixth test of \<open>from\<close>
  accepts iterators.
\<close>

theorem from_accepts_iterator:
  "\<not> isIterable
       (Value (Object None None False False None (Some [Number 1, Number 2])) :: seq any) \<and>
   \<not> isAsyncIterable
       (Value (Object None None False False None (Some [Number 1, Number 2])) :: seq any) \<and>
   \<not> isPromise
       (Value (Object None None False False None (Some [Number 1, Number 2])) :: seq any) \<and>
   \<not> isObservable
       (Value (Object None None False False None (Some [Number 1, Number 2])) :: seq any) \<and>
   \<not> isArrayLike
       (Value (Object None None False False None (Some [Number 1, Number 2])) :: seq any) \<and>
   AsyncIterableX_from (Value (Object None None False False None (Some [Number 1, Number 2])))
     identityAsync =
   Inr (FromAsyncIterable
          (Value (Object None (Some [Number 1, Number 2]) False False None None)) identityAsync)"
  by (simp add: AsyncIterableX_from_def bindCallback_def)

text \<open>
  Suspended at its \<open>yield\<close> with the items \<open>xs\<close> still to come from its source
  and the counter at \<open>k\<close>, the iterator of \<open>FromAsyncIterable\<close> yields the
  selector's result for each item, in order, with the indices from \<open>k\<close> on, and then
  reports the end.
\<close>

lemma FromAsyncIterable_run:
  "generator_run (FromAsyncIterable_asyncIterator source (\<lambda>x i. Inr (f x i)))
     (replicate (Suc (length xs)) v)
     \<lparr>g_state = SuspendedYield, g_locals = (xs, k)\<rparr> w =
   Some (map (\<lambda>(i, x). Yield (f x i)) (enumerate k xs) @ [Done],
         \<lparr>g_state = Completed, g_locals = ([], k + length xs)\<rparr>, w)"
proof (induction xs arbitrary: k)
  case Nil
  show ?case
    by (simp add: generator_next_def FromAsyncIterable_asyncIterator_def)
next
  case (Cons x xs)
  have "generator_next (FromAsyncIterable_asyncIterator source (\<lambda>x i. Inr (f x i))) v
     \<lparr>g_state = SuspendedYield, g_locals = (x # xs, k)\<rparr> w =
     Some (Yield (f x k), \<lparr>g_state = SuspendedYield, g_locals = (xs, Suc k)\<rparr>, w)"
    by (simp add: generator_next_def FromAsyncIterable_asyncIterator_def)
  with Cons.IH [of "Suc k"] show ?case
    by simp
qed



end
